theory Spec2Isabelle
  imports Complex_Main "HOL-Library.Sublist"
begin

section \<open>Data model of \<open>src/public/main.js\<close>\<close>

text \<open>
  Modelled from the spec: \<open>API_EVENT_TYPE\<close> is declared in \<open>api.js\<close>, which is not part
  of the sources. The spec gives a closed set of kinds in which only "animated gift" and
  "message" are treated specially; the doc comment of \<open>processNormalEvent\<close> names the
  remaining kind "Gift".
\<close>

datatype API_EVENT_TYPE = MESSAGE | GIFT | ANIMATED_GIFT

text \<open>
  An event as the code reads it: \<open>item.id\<close>, \<open>event.type\<close>, \<open>timestamp\<close>, and the
  remaining data, which the scheduler never inspects. The timestamp is the value of
  \<open>new Date(timestamp).getTime()\<close>, an integer number of milliseconds.
\<close>

record event =
  event_id :: string
  event_type :: API_EVENT_TYPE
  timestamp :: int
  payload :: string

text \<open>
  The calls made to the functions imported from \<open>dom_updates.js\<close>, in the order made.
  The argument is \<open>None\<close> where JavaScript would pass \<open>undefined\<close>.
\<close>

datatype dom_call = AddMessage "event option" | AnimateGift "event option"

text \<open>
  The module's globals, \<open>eventQueue\<close> and \<open>globalInterval\<close> (\<open>True\<close> while it holds the
  handle of a running interval, \<open>False\<close> for \<open>null\<close>), and the log of calls to the
  renderer.
\<close>

record state =
  eventQueue :: "event list"
  globalInterval :: bool
  dom :: "dom_call list"

text \<open>
  What a tick reads from outside: the clock and the two animation predicates of
  \<open>dom_updates.js\<close>. The source reads \<open>new Date().getTime()\<close> anew at each turn of
  the expiry loop; the model takes the readings made during one tick to be equal, \<open>now\<close>.
\<close>

record env =
  now :: int
  isAnimatingGiftUI :: bool
  isPossiblyAnimatingGift :: bool

datatype error = TypeError

definition initial :: state where
  "initial = \<lparr>eventQueue = [], globalInterval = False, dom = []\<rparr>"

section \<open>Array primitives\<close>

text \<open>\<open>Array.prototype.shift\<close>: removes and returns the first element, \<open>undefined\<close> on \<open>[]\<close>.\<close>

definition shift :: "'a list \<Rightarrow> 'a option \<times> 'a list" where
  "shift q = (case q of [] \<Rightarrow> (None, []) | x # xs \<Rightarrow> (Some x, xs))"

text \<open>
  \<open>q.splice(start, 1)[0]\<close>: a negative start counts from the end, a start beyond the end
  removes nothing, and \<open>[0]\<close> of the removed elements is \<open>undefined\<close> when none was removed.
\<close>

definition splice1 :: "int \<Rightarrow> 'a list \<Rightarrow> 'a option \<times> 'a list" where
  "splice1 start q =
     (let len = int (length q);
          k = nat (if start < 0 then max (len + start) 0 else min start len)
      in (if k < length q then Some (q ! k) else None, take k q @ drop (Suc k) q))"

text \<open>\<open>Array.from(new Set(xs))\<close>: the distinct values of \<open>xs\<close> in insertion order.\<close>

definition Set_from :: "'a list \<Rightarrow> 'a list" where
  "Set_from xs = fold (\<lambda>x seen. if x \<in> set seen then seen else seen @ [x]) xs []"

section \<open>Ingestion (first draft, lines 12--82)\<close>

text \<open>
  \<open>find\<close> returns the first item with the given id. Every id of the set comes from an
  item of the queue, so \<open>find\<close> always succeeds here (lemma \<open>removeDuplicateEvents_find\<close>
  below) and \<open>map_filter\<close> drops nothing.
\<close>

definition removeDuplicateEvents :: "state \<Rightarrow> state" where
  "removeDuplicateEvents s =
     s\<lparr>eventQueue :=
         List.map_filter (\<lambda>i. find (\<lambda>item. event_id item = i) (eventQueue s))
           (Set_from (map event_id (eventQueue s)))\<rparr>"

definition sortEvents :: "event list \<Rightarrow> event list" where
  "sortEvents events =
     (let animatedGiftEvents = filter (\<lambda>event. event_type event = ANIMATED_GIFT) events;
          otherEvents = filter (\<lambda>event. event_type event \<noteq> ANIMATED_GIFT) events
      in animatedGiftEvents @ otherEvents)"

text \<open>The callback given to \<open>api.setEventHandler\<close>.\<close>

definition eventHandler :: "event list \<Rightarrow> state \<Rightarrow> state" where
  "eventHandler events s =
     (if length events > 0 then
        let s1 = s\<lparr>eventQueue := eventQueue s @ sortEvents events\<rparr>;
            s2 = removeDuplicateEvents s1
        in if \<not> globalInterval s2 then s2\<lparr>globalInterval := True\<rparr> else s2
      else s)"

section \<open>The tick (first draft, lines 91--242)\<close>

function getFirstNotAnimatedGiftEventIndex_from :: "event list \<Rightarrow> nat \<Rightarrow> int" where
  "getFirstNotAnimatedGiftEventIndex_from q i =
     (if i < length q then
        (if event_type (q ! i) \<noteq> ANIMATED_GIFT then int i
         else getFirstNotAnimatedGiftEventIndex_from q (i + 1))
      else - 1)"
  by pat_completeness auto
termination
  by (relation "measure (\<lambda>(q, i). length q - i)") auto

declare getFirstNotAnimatedGiftEventIndex_from.simps [simp del]

definition getFirstNotAnimatedGiftEventIndex :: "state \<Rightarrow> int" where
  "getFirstNotAnimatedGiftEventIndex s = getFirstNotAnimatedGiftEventIndex_from (eventQueue s) 0"

text \<open>
  The difference of two millisecond readings, divided by 1000. On integer readings the
  comparison of the quotient with 20 is exact, in floating point as in the rationals.
\<close>

definition calculateTimeDifferenceInSecondsAccordingToNow :: "int \<Rightarrow> int \<Rightarrow> rat" where
  "calculateTimeDifferenceInSecondsAccordingToNow t ts =
     (let differenceInMilliseconds = t - ts
      in of_int differenceInMilliseconds / 1000)"

text \<open>
  The \<open>while\<close> loop of \<open>ignoreFirstEventWithTypeMessageOlderThan20Seconds\<close> on the queue.
  Its condition reads \<open>eventQueue[0].type\<close>; on an empty queue \<open>eventQueue[0]\<close> is
  \<open>undefined\<close> and the property access throws a \<open>TypeError\<close>. The queue returned beside
  the error is the queue as the loop left it.
\<close>

fun ignoreFirstEventWithTypeMessageOlderThan20Seconds_loop ::
  "int \<Rightarrow> event list \<Rightarrow> (error + unit) \<times> event list" where
  "ignoreFirstEventWithTypeMessageOlderThan20Seconds_loop t [] = (Inl TypeError, [])"
| "ignoreFirstEventWithTypeMessageOlderThan20Seconds_loop t (e # es) =
     (if event_type e = MESSAGE then
        (let differenceInSeconds = calculateTimeDifferenceInSecondsAccordingToNow t (timestamp e)
         in if differenceInSeconds > 20
            then ignoreFirstEventWithTypeMessageOlderThan20Seconds_loop t es
            else (Inr (), e # es))
      else (Inr (), e # es))"

definition ignoreFirstEventWithTypeMessageOlderThan20Seconds ::
  "int \<Rightarrow> state \<Rightarrow> (error + unit) \<times> state" where
  "ignoreFirstEventWithTypeMessageOlderThan20Seconds t s =
     (case ignoreFirstEventWithTypeMessageOlderThan20Seconds_loop t (eventQueue s) of
        (r, q) \<Rightarrow> (r, s\<lparr>eventQueue := q\<rparr>))"

definition processNormalEvent :: "state \<Rightarrow> state" where
  "processNormalEvent s =
     (case shift (eventQueue s) of
        (x, q) \<Rightarrow> s\<lparr>eventQueue := q, dom := dom s @ [AddMessage x]\<rparr>)"

definition isAnyAnimatingGiftNotPlaying :: "env \<Rightarrow> bool" where
  "isAnyAnimatingGiftNotPlaying e = (\<not> isAnimatingGiftUI e \<and> \<not> isPossiblyAnimatingGift e)"

definition processAnimatedGiftEvent :: "state \<Rightarrow> state" where
  "processAnimatedGiftEvent s =
     (case shift (eventQueue s) of
        (currentEvent, q) \<Rightarrow>
          s\<lparr>eventQueue := q, dom := dom s @ [AddMessage currentEvent, AnimateGift currentEvent]\<rparr>)"

definition processFirstNotAnimatedGiftEvent :: "state \<Rightarrow> state" where
  "processFirstNotAnimatedGiftEvent s =
     (let index = getFirstNotAnimatedGiftEventIndex s
      in if index \<noteq> - 1 then
           (case splice1 index (eventQueue s) of
              (x, q) \<Rightarrow> s\<lparr>eventQueue := q, dom := dom s @ [AddMessage x]\<rparr>)
         else s)"

definition stopGlobalInterval :: "state \<Rightarrow> state" where
  "stopGlobalInterval s = s\<lparr>globalInterval := False\<rparr>"

text \<open>\<open>eventQueue[0].type\<close> throws on an empty queue here as well.\<close>

definition isFirstEventInQueueAnAnimatedGift :: "state \<Rightarrow> error + bool" where
  "isFirstEventInQueueAnAnimatedGift s =
     (case eventQueue s of
        [] \<Rightarrow> Inl TypeError
      | e # _ \<Rightarrow> Inr (event_type e = ANIMATED_GIFT))"

text \<open>
  The function the interval runs. The result pairs what the call did (the value it
  returned, or the error it threw) with the globals as the call left them.
\<close>

definition checkEventQueueAndMakeNecessaryDomUpdate :: "env \<Rightarrow> state \<Rightarrow> (error + bool) \<times> state" where
  "checkEventQueueAndMakeNecessaryDomUpdate e s =
     (if length (eventQueue s) \<le> 0 then (Inr False, stopGlobalInterval s)
      else
        case ignoreFirstEventWithTypeMessageOlderThan20Seconds (now e) s of
          (Inl err, s1) \<Rightarrow> (Inl err, s1)
        | (Inr _, s1) \<Rightarrow>
            (case isFirstEventInQueueAnAnimatedGift s1 of
               Inl err \<Rightarrow> (Inl err, s1)
             | Inr True \<Rightarrow>
                 (if isAnyAnimatingGiftNotPlaying e
                  then (Inr True, processAnimatedGiftEvent s1)
                  else (Inr True, processFirstNotAnimatedGiftEvent s1))
             | Inr False \<Rightarrow> (Inr True, processNormalEvent s1)))"

section \<open>The tick of the third draft (lines 473--504)\<close>

text \<open>
  The third draft's \<open>getFirstNotAnimatedGiftEventIndex\<close>,
  \<open>calculateTimeDifferenceInSecondsAccordingToNow\<close> and
  \<open>ignoreFirstEventWithTypeMessageOlderThan20Seconds\<close> (lines 433--468) are the first
  draft's, statement for statement, so the definitions above stand for both. Its tick
  has the rest inline and returns no value.
\<close>

definition checkEventQueueAndMakeNecessaryDomUpdate_draft3 ::
  "env \<Rightarrow> state \<Rightarrow> (error + unit) \<times> state" where
  "checkEventQueueAndMakeNecessaryDomUpdate_draft3 e s =
     (if length (eventQueue s) \<le> 0 then (Inr (), s\<lparr>globalInterval := False\<rparr>)
      else
        case ignoreFirstEventWithTypeMessageOlderThan20Seconds (now e) s of
          (Inl err, s1) \<Rightarrow> (Inl err, s1)
        | (Inr _, s1) \<Rightarrow>
            (case eventQueue s1 of
               [] \<Rightarrow> (Inl TypeError, s1)
             | e0 # _ \<Rightarrow>
                 if event_type e0 = ANIMATED_GIFT then
                   (if \<not> isAnimatingGiftUI e \<and> \<not> isPossiblyAnimatingGift e then
                      (case shift (eventQueue s1) of
                         (currentEvent, q) \<Rightarrow>
                           (Inr (), s1\<lparr>eventQueue := q,
                                       dom := dom s1 @ [AddMessage currentEvent, AnimateGift currentEvent]\<rparr>))
                    else
                      (let index = getFirstNotAnimatedGiftEventIndex s1
                       in if index \<noteq> - 1 then
                            (case splice1 index (eventQueue s1) of
                               (currentEvent, q) \<Rightarrow>
                                 (Inr (), s1\<lparr>eventQueue := q, dom := dom s1 @ [AddMessage currentEvent]\<rparr>))
                          else (Inr (), s1)))
                 else
                   (case shift (eventQueue s1) of
                      (currentEvent, q) \<Rightarrow>
                        (Inr (), s1\<lparr>eventQueue := q, dom := dom s1 @ [AddMessage currentEvent]\<rparr>))))"

section \<open>Notions used in the statements\<close>

text \<open>
  A message that the expiry rule drops at clock reading \<open>t\<close>: its age, in milliseconds,
  is more than 20000.
\<close>

abbreviation expired :: "int \<Rightarrow> event \<Rightarrow> bool" where
  "expired t e \<equiv> (event_type e = MESSAGE \<and> t - timestamp e > 20000)"

abbreviation animated :: "event \<Rightarrow> bool" where
  "animated e \<equiv> (event_type e = ANIMATED_GIFT)"

text \<open>
  The first entry of each key, in the order of the list: the reference against which
  \<open>removeDuplicateEvents\<close> is compared.
\<close>

fun first_by :: "('a \<Rightarrow> 'k) \<Rightarrow> 'a list \<Rightarrow> 'a list" where
  "first_by f [] = []"
| "first_by f (x # xs) = x # first_by f (filter (\<lambda>y. f y \<noteq> f x) xs)"

text \<open>Ingesting a sequence of batches, one call of the handler per batch, in order.\<close>

definition ingestAll :: "event list list \<Rightarrow> state \<Rightarrow> state" where
  "ingestAll batches s = fold eventHandler batches s"

text \<open>The states the module can be in: ingestions and ticks from the initial state.\<close>

inductive reachable :: "state \<Rightarrow> bool" where
  reachable_initial: "reachable initial"
| reachable_ingest: "reachable s \<Longrightarrow> reachable (eventHandler events s)"
| reachable_tick: "reachable s \<Longrightarrow> reachable (snd (checkEventQueueAndMakeNecessaryDomUpdate e s))"

section \<open>The expiry loop and the index search\<close>

lemma calculateTimeDifference_gt_20:
  "(calculateTimeDifferenceInSecondsAccordingToNow t ts > 20) = (t - ts > 20000)"
proof -
  have "(of_int (t - ts) / 1000 > (20::rat)) = (of_int (t - ts) > (20000::rat))"
    by (simp add: field_simps)
  also have "\<dots> = (t - ts > 20000)"
    by (metis of_int_less_iff of_int_numeral)
  finally show ?thesis
    by (simp add: calculateTimeDifferenceInSecondsAccordingToNow_def)
qed

lemma ignore_loop_dropWhile:
  "ignoreFirstEventWithTypeMessageOlderThan20Seconds_loop t q =
     (if dropWhile (expired t) q = [] then (Inl TypeError, [])
      else (Inr (), dropWhile (expired t) q))"
  by (induction q) (simp_all add: calculateTimeDifference_gt_20)

lemma index_from_takeWhile:
  "i \<le> length q \<Longrightarrow>
   getFirstNotAnimatedGiftEventIndex_from q i =
     (if dropWhile animated (drop i q) = [] then - 1
      else int (i + length (takeWhile animated (drop i q))))"
proof (induction q i rule: getFirstNotAnimatedGiftEventIndex_from.induct)
  case (1 q i)
  show ?case
  proof (cases "i < length q")
    case False
    then show ?thesis
      by (simp add: getFirstNotAnimatedGiftEventIndex_from.simps [of q i])
  next
    case True
    then have d: "drop i q = q ! i # drop (Suc i) q"
      by (simp add: Cons_nth_drop_Suc)
    show ?thesis
    proof (cases "event_type (q ! i) = ANIMATED_GIFT")
      case False
      with True d show ?thesis
        by (simp add: getFirstNotAnimatedGiftEventIndex_from.simps [of q i])
    next
      case g: True
      from True have "i + 1 \<le> length q" by simp
      with "1.IH" True g
      have "getFirstNotAnimatedGiftEventIndex_from q (i + 1) =
              (if dropWhile animated (drop (i + 1) q) = [] then - 1
               else int (i + 1 + length (takeWhile animated (drop (i + 1) q))))"
        by simp
      with True g d show ?thesis
        by (simp add: getFirstNotAnimatedGiftEventIndex_from.simps [of q i])
    qed
  qed
qed

lemma getFirstNotAnimatedGiftEventIndex_eq:
  "getFirstNotAnimatedGiftEventIndex s =
     (if dropWhile animated (eventQueue s) = [] then - 1
      else int (length (takeWhile animated (eventQueue s))))"
  using index_from_takeWhile [of 0 "eventQueue s"]
  by (simp add: getFirstNotAnimatedGiftEventIndex_def)

lemma splice1_at:
  "dropWhile P q = x # r \<Longrightarrow>
   splice1 (int (length (takeWhile P q))) q = (Some x, takeWhile P q @ r)"
proof -
  assume a: "dropWhile P q = x # r"
  let ?k = "length (takeWhile P q)"
  have q: "q = takeWhile P q @ x # r"
    using a takeWhile_dropWhile_id [of P q] by simp
  have lt: "?k < length q"
    by (subst (2) q) simp
  have n: "q ! ?k = x"
    using q by (metis nth_append_length)
  have t: "take ?k q = takeWhile P q"
    using q by (metis append_eq_conv_conj)
  have d: "drop (Suc ?k) q = r"
    using q by (metis append_eq_conv_conj drop_Suc tl_drop list.sel(3))
  show ?thesis
    using lt n t d by (simp add: splice1_def min_def)
qed

section \<open>The cases of a tick\<close>

lemma ignoreFirst_state:
  "ignoreFirstEventWithTypeMessageOlderThan20Seconds t s =
     (if dropWhile (expired t) (eventQueue s) = [] then (Inl TypeError, s\<lparr>eventQueue := []\<rparr>)
      else (Inr (), s\<lparr>eventQueue := dropWhile (expired t) (eventQueue s)\<rparr>))"
  by (simp add: ignoreFirstEventWithTypeMessageOlderThan20Seconds_def ignore_loop_dropWhile)

lemma tick_empty:
  "eventQueue s = [] \<Longrightarrow>
   checkEventQueueAndMakeNecessaryDomUpdate e s = (Inr False, s\<lparr>globalInterval := False\<rparr>)"
  by (simp add: checkEventQueueAndMakeNecessaryDomUpdate_def stopGlobalInterval_def)

lemma tick_all_expired:
  "eventQueue s \<noteq> [] \<Longrightarrow> dropWhile (expired (now e)) (eventQueue s) = [] \<Longrightarrow>
   checkEventQueueAndMakeNecessaryDomUpdate e s = (Inl TypeError, s\<lparr>eventQueue := []\<rparr>)"
  by (simp add: checkEventQueueAndMakeNecessaryDomUpdate_def ignoreFirst_state)

lemma tick_normal:
  "dropWhile (expired (now e)) (eventQueue s) = x # r \<Longrightarrow> event_type x \<noteq> ANIMATED_GIFT \<Longrightarrow>
   checkEventQueueAndMakeNecessaryDomUpdate e s =
     (Inr True, s\<lparr>eventQueue := r, dom := dom s @ [AddMessage (Some x)]\<rparr>)"
  by (auto simp add: checkEventQueueAndMakeNecessaryDomUpdate_def ignoreFirst_state
      isFirstEventInQueueAnAnimatedGift_def processNormalEvent_def shift_def)

lemma tick_animated:
  "dropWhile (expired (now e)) (eventQueue s) = x # r \<Longrightarrow> event_type x = ANIMATED_GIFT \<Longrightarrow>
   \<not> isAnimatingGiftUI e \<Longrightarrow> \<not> isPossiblyAnimatingGift e \<Longrightarrow>
   checkEventQueueAndMakeNecessaryDomUpdate e s =
     (Inr True, s\<lparr>eventQueue := r, dom := dom s @ [AddMessage (Some x), AnimateGift (Some x)]\<rparr>)"
  by (auto simp add: checkEventQueueAndMakeNecessaryDomUpdate_def ignoreFirst_state
      isFirstEventInQueueAnAnimatedGift_def processAnimatedGiftEvent_def shift_def
      isAnyAnimatingGiftNotPlaying_def)

lemma processFirstNotAnimatedGiftEvent_found:
  "dropWhile animated (eventQueue s) = y # r \<Longrightarrow>
   processFirstNotAnimatedGiftEvent s =
     s\<lparr>eventQueue := takeWhile animated (eventQueue s) @ r, dom := dom s @ [AddMessage (Some y)]\<rparr>"
  using splice1_at [of animated "eventQueue s" y r]
  by (simp add: processFirstNotAnimatedGiftEvent_def getFirstNotAnimatedGiftEventIndex_eq)

lemma processFirstNotAnimatedGiftEvent_none:
  "dropWhile animated (eventQueue s) = [] \<Longrightarrow> processFirstNotAnimatedGiftEvent s = s"
  by (simp add: processFirstNotAnimatedGiftEvent_def getFirstNotAnimatedGiftEventIndex_eq)

lemma tick_busy:
  "dropWhile (expired (now e)) (eventQueue s) = x # r \<Longrightarrow> event_type x = ANIMATED_GIFT \<Longrightarrow>
   isAnimatingGiftUI e \<or> isPossiblyAnimatingGift e \<Longrightarrow>
   checkEventQueueAndMakeNecessaryDomUpdate e s =
     (Inr True, processFirstNotAnimatedGiftEvent (s\<lparr>eventQueue := x # r\<rparr>))"
  by (auto simp add: checkEventQueueAndMakeNecessaryDomUpdate_def ignoreFirst_state
      isFirstEventInQueueAnAnimatedGift_def isAnyAnimatingGiftNotPlaying_def)

lemma tick_skip:
  "dropWhile (expired (now e)) (eventQueue s) = x # r \<Longrightarrow> event_type x = ANIMATED_GIFT \<Longrightarrow>
   isAnimatingGiftUI e \<or> isPossiblyAnimatingGift e \<Longrightarrow>
   dropWhile animated r = y # r' \<Longrightarrow>
   checkEventQueueAndMakeNecessaryDomUpdate e s =
     (Inr True, s\<lparr>eventQueue := x # takeWhile animated r @ r', dom := dom s @ [AddMessage (Some y)]\<rparr>)"
  using processFirstNotAnimatedGiftEvent_found [of "s\<lparr>eventQueue := x # r\<rparr>" y r']
  by (simp add: tick_busy)

lemma tick_blocked:
  "dropWhile (expired (now e)) (eventQueue s) = x # r \<Longrightarrow> event_type x = ANIMATED_GIFT \<Longrightarrow>
   isAnimatingGiftUI e \<or> isPossiblyAnimatingGift e \<Longrightarrow>
   dropWhile animated r = [] \<Longrightarrow>
   checkEventQueueAndMakeNecessaryDomUpdate e s = (Inr True, s\<lparr>eventQueue := x # r\<rparr>)"
  using processFirstNotAnimatedGiftEvent_none [of "s\<lparr>eventQueue := x # r\<rparr>"]
  by (simp add: tick_busy)

lemma tick_cases:
  obtains
    (idle) "eventQueue s = []"
      "checkEventQueueAndMakeNecessaryDomUpdate e s = (Inr False, s\<lparr>globalInterval := False\<rparr>)"
  | (threw) "eventQueue s \<noteq> []" "dropWhile (expired (now e)) (eventQueue s) = []"
      "checkEventQueueAndMakeNecessaryDomUpdate e s = (Inl TypeError, s\<lparr>eventQueue := []\<rparr>)"
  | (animated) x r where "dropWhile (expired (now e)) (eventQueue s) = x # r"
      "event_type x = ANIMATED_GIFT"
      "checkEventQueueAndMakeNecessaryDomUpdate e s =
         (Inr True, s\<lparr>eventQueue := r, dom := dom s @ [AddMessage (Some x), AnimateGift (Some x)]\<rparr>)"
  | (ordinary) xs x ys where "dropWhile (expired (now e)) (eventQueue s) = xs @ x # ys"
      "event_type x \<noteq> ANIMATED_GIFT"
      "checkEventQueueAndMakeNecessaryDomUpdate e s =
         (Inr True, s\<lparr>eventQueue := xs @ ys, dom := dom s @ [AddMessage (Some x)]\<rparr>)"
  | (blocked) "dropWhile (expired (now e)) (eventQueue s) \<noteq> []"
      "checkEventQueueAndMakeNecessaryDomUpdate e s =
         (Inr True, s\<lparr>eventQueue := dropWhile (expired (now e)) (eventQueue s)\<rparr>)"
proof (cases "eventQueue s = []")
  case True
  then show ?thesis by (rule idle) (simp add: True tick_empty)
next
  case ne: False
  show ?thesis
  proof (cases "dropWhile (expired (now e)) (eventQueue s)")
    case Nil
    with ne show ?thesis by (rule threw) (simp add: ne Nil tick_all_expired)
  next
    case (Cons x r)
    show ?thesis
    proof (cases "event_type x = ANIMATED_GIFT")
      case False
      have p: "dropWhile (expired (now e)) (eventQueue s) = [] @ x # r"
        using Cons by simp
      have t:
        "checkEventQueueAndMakeNecessaryDomUpdate e s =
           (Inr True, s\<lparr>eventQueue := [] @ r, dom := dom s @ [AddMessage (Some x)]\<rparr>)"
        using tick_normal [OF Cons False] by simp
      from p False t show ?thesis by (rule ordinary)
    next
      case g: True
      show ?thesis
      proof (cases "isAnimatingGiftUI e \<or> isPossiblyAnimatingGift e")
        case False
        then have "\<not> isAnimatingGiftUI e" "\<not> isPossiblyAnimatingGift e" by simp_all
        then have
          "checkEventQueueAndMakeNecessaryDomUpdate e s =
             (Inr True, s\<lparr>eventQueue := r, dom := dom s @ [AddMessage (Some x), AnimateGift (Some x)]\<rparr>)"
          by (rule tick_animated [OF Cons g])
        with Cons g show ?thesis by (rule animated)
      next
        case busy: True
        show ?thesis
        proof (cases "dropWhile animated r")
          case Nil
          have t: "checkEventQueueAndMakeNecessaryDomUpdate e s =
                  (Inr True, s\<lparr>eventQueue := dropWhile (expired (now e)) (eventQueue s)\<rparr>)"
            using tick_blocked [OF Cons g busy Nil] Cons by simp
          have p: "dropWhile (expired (now e)) (eventQueue s) \<noteq> []"
            using Cons by simp
          from p t show ?thesis by (rule blocked)
        next
          case c2: (Cons y r')
          have r: "takeWhile animated r @ y # r' = r"
            using c2 takeWhile_dropWhile_id [of animated r] by simp
          have p: "dropWhile (expired (now e)) (eventQueue s) = (x # takeWhile animated r) @ y # r'"
            using Cons r by simp
          have ny: "event_type y \<noteq> ANIMATED_GIFT"
            using hd_dropWhile [of animated r] c2 by simp
          have "checkEventQueueAndMakeNecessaryDomUpdate e s =
                  (Inr True, s\<lparr>eventQueue := (x # takeWhile animated r) @ r',
                                dom := dom s @ [AddMessage (Some y)]\<rparr>)"
            using tick_skip [OF Cons g busy c2] by simp
          with p ny show ?thesis by (rule ordinary)
        qed
      qed
    qed
  qed
qed

section \<open>Deduplication\<close>

lemma set_first_by_subset: "set (first_by f xs) \<subseteq> set xs"
  by (induction f xs rule: first_by.induct) auto

lemma image_set_first_by: "f ` set (first_by f xs) = f ` set xs"
proof (induction f xs rule: first_by.induct)
  case (1 f)
  show ?case by simp
next
  case (2 f x xs)
  have "f ` set (x # xs) = insert (f x) (f ` {y \<in> set xs. f y \<noteq> f x})"
    by auto
  with 2 show ?case by simp
qed

lemma distinct_first_by: "distinct (map f (first_by f xs))"
proof (induction f xs rule: first_by.induct)
  case (1 f)
  show ?case by simp
next
  case (2 f x xs)
  have "f x \<notin> f ` set (filter (\<lambda>y. f y \<noteq> f x) xs)"
    by auto
  then have "f x \<notin> f ` set (first_by f (filter (\<lambda>y. f y \<noteq> f x) xs))"
    by (metis image_set_first_by)
  with 2 show ?case by simp
qed

lemma first_by_distinct: "distinct (map f xs) \<Longrightarrow> first_by f xs = xs"
proof (induction xs)
  case Nil
  show ?case by simp
next
  case (Cons x xs)
  from Cons.prems have "f x \<notin> f ` set xs" by simp
  then have "\<And>y. y \<in> set xs \<Longrightarrow> f y \<noteq> f x" by (metis imageI)
  then have "filter (\<lambda>y. f y \<noteq> f x) xs = xs"
    by (simp add: filter_id_conv)
  with Cons show ?case by simp
qed

lemma find_filter_implied:
  "(\<And>x. P x \<Longrightarrow> Q x) \<Longrightarrow> find P (filter Q xs) = find P xs"
  by (induction xs) auto

lemma find_first_by: "find (\<lambda>x. f x = k) (first_by f xs) = find (\<lambda>x. f x = k) xs"
proof (induction f xs rule: first_by.induct)
  case (1 f)
  show ?case by simp
next
  case (2 f x xs)
  show ?case
  proof (cases "f x = k")
    case True
    then show ?thesis by simp
  next
    case False
    then have "find (\<lambda>y. f y = k) (filter (\<lambda>y. f y \<noteq> f x) xs) = find (\<lambda>y. f y = k) xs"
      by (intro find_filter_implied) auto
    with 2 False show ?thesis by simp
  qed
qed

lemma filter_first_by:
  "filter (\<lambda>x. P (f x)) (first_by f xs) = first_by f (filter (\<lambda>x. P (f x)) xs)"
proof (induction f xs rule: first_by.induct)
  case (1 f)
  show ?case by simp
next
  case (2 f x xs)
  have c: "filter (\<lambda>y. f y \<noteq> f x) (filter (\<lambda>x. P (f x)) xs) =
           filter (\<lambda>x. P (f x)) (filter (\<lambda>y. f y \<noteq> f x) xs)"
    by (simp add: conj_commute)
  show ?case
  proof (cases "P (f x)")
    case True
    with 2 c show ?thesis by simp
  next
    case False
    have "filter (\<lambda>x. P (f x)) (filter (\<lambda>y. f y \<noteq> f x) xs) = filter (\<lambda>x. P (f x)) xs"
      using False by (auto intro: filter_cong simp add: )
    with 2 False show ?thesis by simp
  qed
qed

lemma first_by_append:
  "first_by f (xs @ ys) = first_by f xs @ first_by f (filter (\<lambda>y. f y \<notin> f ` set xs) ys)"
proof (induction f xs arbitrary: ys rule: first_by.induct)
  case (1 f)
  show ?case by simp
next
  case (2 f x xs)
  let ?xs' = "filter (\<lambda>y. f y \<noteq> f x) xs"
  have "filter (\<lambda>y. f y \<notin> f ` set ?xs') (filter (\<lambda>y. f y \<noteq> f x) ys) =
        filter (\<lambda>y. f y \<notin> f ` set (x # xs)) ys"
    by (auto intro: filter_cong)
  with "2.IH" [of "filter (\<lambda>y. f y \<noteq> f x) ys"] show ?case by simp
qed

lemma first_by_idem: "first_by f (first_by f xs) = first_by f xs"
  by (simp add: first_by_distinct distinct_first_by)

lemma first_by_first_by_append: "first_by f (first_by f xs @ ys) = first_by f (xs @ ys)"
  by (simp add: first_by_append first_by_idem image_set_first_by)

lemma first_by_map: "first_by (\<lambda>k. k) (map f xs) = map f (first_by f xs)"
proof (induction f xs rule: first_by.induct)
  case (1 f)
  show ?case by simp
next
  case (2 f x xs)
  then show ?case by (simp add: filter_map comp_def)
qed

lemma fold_Set_from:
  "fold (\<lambda>x seen. if x \<in> set seen then seen else seen @ [x]) xs acc =
     acc @ first_by (\<lambda>k. k) (filter (\<lambda>x. x \<notin> set acc) xs)"
proof (induction xs arbitrary: acc)
  case Nil
  show ?case by simp
next
  case (Cons x xs)
  show ?case
  proof (cases "x \<in> set acc")
    case True
    with Cons show ?thesis by simp
  next
    case False
    have "filter (\<lambda>y. y \<notin> set (acc @ [x])) xs = filter (\<lambda>y. y \<noteq> x) (filter (\<lambda>y. y \<notin> set acc) xs)"
      by (auto intro: filter_cong)
    with Cons [of "acc @ [x]"] False show ?thesis by simp
  qed
qed

lemma Set_from_first_by: "Set_from xs = first_by (\<lambda>k. k) xs"
  by (simp add: Set_from_def fold_Set_from)

lemma map_filter_find_first_by:
  "(\<And>k. k \<in> f ` set r \<Longrightarrow> find (\<lambda>x. f x = k) q = find (\<lambda>x. f x = k) r) \<Longrightarrow>
   List.map_filter (\<lambda>k. find (\<lambda>x. f x = k) q) (map f (first_by f r)) = first_by f r"
proof (induction f r rule: first_by.induct)
  case (1 f)
  show ?case by simp
next
  case (2 f x xs)
  let ?xs' = "filter (\<lambda>y. f y \<noteq> f x) xs"
  have hd: "find (\<lambda>y. f y = f x) q = Some x"
    using "2.prems" [of "f x"] by simp
  have "\<And>k. k \<in> f ` set ?xs' \<Longrightarrow> find (\<lambda>y. f y = k) q = find (\<lambda>y. f y = k) ?xs'"
  proof -
    fix k assume k: "k \<in> f ` set ?xs'"
    then have ne: "k \<noteq> f x" by auto
    from k have "k \<in> f ` set (x # xs)" by auto
    then have "find (\<lambda>y. f y = k) q = find (\<lambda>y. f y = k) (x # xs)"
      by (rule "2.prems")
    also have "\<dots> = find (\<lambda>y. f y = k) xs"
      using ne by auto
    also have "\<dots> = find (\<lambda>y. f y = k) ?xs'"
      using ne by (intro find_filter_implied [symmetric]) auto
    finally show "find (\<lambda>y. f y = k) q = find (\<lambda>y. f y = k) ?xs'" .
  qed
  then have "List.map_filter (\<lambda>k. find (\<lambda>x. f x = k) q) (map f (first_by f ?xs')) = first_by f ?xs'"
    by (rule "2.IH")
  with hd show ?case by simp
qed

lemma removeDuplicateEvents_queue:
  "eventQueue (removeDuplicateEvents s) = first_by event_id (eventQueue s)"
  using map_filter_find_first_by [of event_id "eventQueue s" "eventQueue s"]
  by (simp add: removeDuplicateEvents_def Set_from_first_by first_by_map)

lemma removeDuplicateEvents_state:
  "removeDuplicateEvents s = s\<lparr>eventQueue := first_by event_id (eventQueue s)\<rparr>"
  using map_filter_find_first_by [of event_id "eventQueue s" "eventQueue s"]
  by (simp add: removeDuplicateEvents_def Set_from_first_by first_by_map)

lemma removeDuplicateEvents_find:
  "i \<in> set (Set_from (map event_id (eventQueue s))) \<Longrightarrow>
   find (\<lambda>item. event_id item = i) (eventQueue s) \<noteq> None"
proof -
  assume "i \<in> set (Set_from (map event_id (eventQueue s)))"
  then have "i \<in> event_id ` set (first_by event_id (eventQueue s))"
    by (simp add: Set_from_first_by first_by_map)
  then have "i \<in> event_id ` set (eventQueue s)"
    by (simp only: image_set_first_by)
  then show ?thesis
    by (auto simp add: find_None_iff)
qed

section \<open>Ingestion\<close>

lemma eventHandler_state:
  "eventHandler events s =
     (if events = [] then s
      else s\<lparr>eventQueue := first_by event_id (eventQueue s @ sortEvents events),
             globalInterval := True\<rparr>)"
  by (cases "globalInterval s") (simp_all add: eventHandler_def removeDuplicateEvents_state Let_def)

lemma sortEvents_Nil: "sortEvents [] = []"
  by (simp add: sortEvents_def)

lemma eventHandler_queue_distinct:
  "distinct (map event_id (eventQueue s)) \<Longrightarrow>
   eventQueue (eventHandler events s) = first_by event_id (eventQueue s @ sortEvents events)"
  by (simp add: eventHandler_state sortEvents_Nil first_by_distinct)

lemma ingestAll_queue:
  "distinct (map event_id (eventQueue s)) \<Longrightarrow>
   eventQueue (ingestAll batches s) =
     first_by event_id (eventQueue s @ concat (map sortEvents batches))"
proof (induction batches arbitrary: s)
  case Nil
  then show ?case by (simp add: ingestAll_def first_by_distinct)
next
  case (Cons b bs)
  let ?s' = "eventHandler b s"
  have q: "eventQueue ?s' = first_by event_id (eventQueue s @ sortEvents b)"
    using Cons.prems by (rule eventHandler_queue_distinct)
  then have "distinct (map event_id (eventQueue ?s'))"
    by (simp add: distinct_first_by)
  then have "eventQueue (ingestAll bs ?s') =
               first_by event_id (eventQueue ?s' @ concat (map sortEvents bs))"
    by (rule Cons.IH)
  also have "\<dots> = first_by event_id ((eventQueue s @ sortEvents b) @ concat (map sortEvents bs))"
    by (simp only: q first_by_first_by_append)
  finally show ?case by (simp add: ingestAll_def)
qed

lemma find_append_cases:
  "find P (xs @ ys) = (case find P xs of None \<Rightarrow> find P ys | Some x \<Rightarrow> Some x)"
  by (induction xs) simp_all

lemma find_append_skip: "\<not> P x \<Longrightarrow> find P (xs @ x # ys) = find P (xs @ ys)"
  by (induction xs) simp_all

lemma find_append_None: "find P xs = None \<Longrightarrow> find P (xs @ ys) = find P ys"
  by (simp add: find_append_cases)

lemma find_append_cong:
  "find P xs = find P xs' \<Longrightarrow> find P ys = find P ys' \<Longrightarrow> find P (xs @ ys) = find P (xs' @ ys')"
  by (simp add: find_append_cases split: option.split)

lemma find_sortEvents:
  "distinct (map event_id b) \<Longrightarrow>
   find (\<lambda>x. event_id x = i) (sortEvents b) = find (\<lambda>x. event_id x = i) b"
proof (induction b)
  case Nil
  show ?case by (simp add: sortEvents_def)
next
  case (Cons x xs)
  let ?A = "filter animated xs"
  let ?B = "filter (\<lambda>x. \<not> animated x) xs"
  from Cons have ih: "find (\<lambda>x. event_id x = i) (?A @ ?B) = find (\<lambda>x. event_id x = i) xs"
    by (simp add: sortEvents_def)
  show ?case
  proof (cases "event_id x = i")
    case False
    then have "find (\<lambda>x. event_id x = i) (?A @ x # ?B) = find (\<lambda>x. event_id x = i) (?A @ ?B)"
      by (intro find_append_skip) simp
    with ih False show ?thesis
      by (simp add: sortEvents_def)
  next
    case True
    with Cons.prems have "i \<notin> event_id ` set xs" by simp
    then have "find (\<lambda>x. event_id x = i) ?A = None"
      by (auto simp add: find_None_iff)
    then have "find (\<lambda>x. event_id x = i) (?A @ x # ?B) = find (\<lambda>x. event_id x = i) (x # ?B)"
      by (rule find_append_None)
    with True show ?thesis
      by (simp add: sortEvents_def)
  qed
qed

lemma find_concat_sortEvents:
  "(\<And>b. b \<in> set batches \<Longrightarrow> distinct (map event_id b)) \<Longrightarrow>
   find (\<lambda>x. event_id x = i) (concat (map sortEvents batches)) =
   find (\<lambda>x. event_id x = i) (concat batches)"
proof (induction batches)
  case Nil
  show ?case by simp
next
  case (Cons b bs)
  have h: "find (\<lambda>x. event_id x = i) (sortEvents b) = find (\<lambda>x. event_id x = i) b"
    using Cons.prems by (simp add: find_sortEvents)
  have t: "find (\<lambda>x. event_id x = i) (concat (map sortEvents bs)) =
           find (\<lambda>x. event_id x = i) (concat bs)"
    using Cons.prems by (intro Cons.IH) simp
  from h t have "find (\<lambda>x. event_id x = i) (sortEvents b @ concat (map sortEvents bs)) =
                 find (\<lambda>x. event_id x = i) (b @ concat bs)"
    by (rule find_append_cong)
  then show ?case by simp
qed

lemma distinct_map_partition:
  "distinct (map f xs) \<Longrightarrow> distinct (map f (filter P xs @ filter (\<lambda>x. \<not> P x) xs))"
  by (induction xs) auto

section \<open>Invariants of the reachable states\<close>

text \<open>
  In every state reached from the initial one by ingestions and ticks, no two entries of
  the queue share an id, and the interval runs whenever the queue holds an entry.
\<close>

lemma tick_globalInterval:
  "globalInterval (snd (checkEventQueueAndMakeNecessaryDomUpdate e s)) =
     (globalInterval s \<and> eventQueue s \<noteq> [])"
proof (cases e s rule: tick_cases)
  case idle
  then show ?thesis by simp
next
  case threw
  then show ?thesis by simp
next
  case (animated x r)
  then have "eventQueue s \<noteq> []" by auto
  with animated show ?thesis by simp
next
  case (ordinary xs x ys)
  then have "eventQueue s \<noteq> []" by auto
  with ordinary show ?thesis by simp
next
  case blocked
  then have "eventQueue s \<noteq> []" by auto
  with blocked show ?thesis by simp
qed

lemma tick_queue_empty:
  "eventQueue s = [] \<Longrightarrow> eventQueue (snd (checkEventQueueAndMakeNecessaryDomUpdate e s)) = []"
  by (simp add: tick_empty)

lemma distinct_map_dropWhile:
  "distinct (map f xs) \<Longrightarrow> distinct (map f (dropWhile P xs))"
  by (induction xs) auto

lemma tick_distinct:
  assumes "distinct (map event_id (eventQueue s))"
  shows "distinct (map event_id (eventQueue (snd (checkEventQueueAndMakeNecessaryDomUpdate e s))))"
proof -
  have p: "distinct (map event_id (dropWhile (expired (now e)) (eventQueue s)))"
    using assms by (rule distinct_map_dropWhile)
  show ?thesis
  proof (cases e s rule: tick_cases)
    case idle
    then show ?thesis by simp
  next
    case threw
    then show ?thesis by simp
  next
    case (animated x r)
    with p show ?thesis by simp
  next
    case (ordinary xs x ys)
    with p show ?thesis by simp
  next
    case blocked
    with p show ?thesis by simp
  qed
qed

lemma reachable_invariant:
  "reachable s \<Longrightarrow>
   distinct (map event_id (eventQueue s)) \<and> (eventQueue s \<noteq> [] \<longrightarrow> globalInterval s)"
proof (induction rule: reachable.induct)
  case reachable_initial
  show ?case by (simp add: initial_def)
next
  case (reachable_ingest s events)
  then show ?case
    by (simp add: eventHandler_state distinct_first_by)
next
  case (reachable_tick s e)
  then show ?case
    using tick_distinct [of s e] tick_queue_empty [of s e]
    by (auto simp add: tick_globalInterval)
qed

section \<open>The claims\<close>

text \<open>
  Claim C1: when the expiry pruning of a tick removes every entry of a non-empty queue, the
  tick returns signalling idle, makes no renderer call and raises no error. The code does
  not: after the last \<open>shift\<close> the loop condition reads \<open>eventQueue[0].type\<close> on the
  empty queue and throws (lemma \<open>tick_all_expired\<close> has the general case). At clock
  reading 25000 ms, a queue holding one message stamped 0 ms is emptied and the tick ends
  in a \<open>TypeError\<close>, with the interval still held.
\<close>

theorem C1_tick_throws_after_pruning_everything:
  "checkEventQueueAndMakeNecessaryDomUpdate
     \<lparr>now = 25000, isAnimatingGiftUI = False, isPossiblyAnimatingGift = False\<rparr>
     \<lparr>eventQueue = [\<lparr>event_id = ''1'', event_type = MESSAGE, timestamp = 0, payload = ''hi''\<rparr>],
      globalInterval = True, dom = []\<rparr>
   = (Inl TypeError, \<lparr>eventQueue = [], globalInterval = True, dom = []\<rparr>)"
  by (simp add: checkEventQueueAndMakeNecessaryDomUpdate_def
      ignoreFirstEventWithTypeMessageOlderThan20Seconds_def
      calculateTimeDifferenceInSecondsAccordingToNow_def)

text \<open>
  Claim C2, as stated: after any sequence of ingestions the queue holds one entry per id,
  the one that appeared first across the ingested batches. It fails when one batch holds a
  message and, after it, an animated gift of the same id: the batch is reordered before it
  is appended, so the gift comes first in the queue and is the entry kept.
\<close>

theorem C2_later_gift_wins_counterexample:
  "eventQueue (ingestAll
     [[\<lparr>event_id = ''1'', event_type = MESSAGE, timestamp = 0, payload = ''first''\<rparr>,
       \<lparr>event_id = ''1'', event_type = ANIMATED_GIFT, timestamp = 0, payload = ''second''\<rparr>]]
     initial)
   = [\<lparr>event_id = ''1'', event_type = ANIMATED_GIFT, timestamp = 0, payload = ''second''\<rparr>] \<and>
   eventQueue (ingestAll
     [[\<lparr>event_id = ''1'', event_type = MESSAGE, timestamp = 0, payload = ''first''\<rparr>,
       \<lparr>event_id = ''1'', event_type = ANIMATED_GIFT, timestamp = 0, payload = ''second''\<rparr>]]
     initial)
   \<noteq> [\<lparr>event_id = ''1'', event_type = MESSAGE, timestamp = 0, payload = ''first''\<rparr>]"
  by (simp add: ingestAll_def initial_def eventHandler_def sortEvents_def
      removeDuplicateEvents_def Set_from_def)

text \<open>
  Claim C2, amended: after any sequence of ingestions from the initial state, the queue
  holds at most one entry per id, and the entry kept for an id is the first of that id in
  queue order, that is, in the concatenation of the batches, each reordered with its
  animated gifts first. When no batch holds two events of one id, this is the entry that
  appeared first across the ingested batches.
\<close>

theorem C2_first_in_queue_order_wins:
  "distinct (map event_id (eventQueue (ingestAll batches initial))) \<and>
   (\<forall>i. find (\<lambda>x. event_id x = i) (eventQueue (ingestAll batches initial)) =
        find (\<lambda>x. event_id x = i) (concat (map sortEvents batches))) \<and>
   ((\<forall>b \<in> set batches. distinct (map event_id b)) \<longrightarrow>
    (\<forall>i. find (\<lambda>x. event_id x = i) (eventQueue (ingestAll batches initial)) =
         find (\<lambda>x. event_id x = i) (concat batches)))"
proof -
  have q: "eventQueue (ingestAll batches initial) =
           first_by event_id (concat (map sortEvents batches))"
    using ingestAll_queue [of initial batches] by (simp add: initial_def)
  have a: "distinct (map event_id (eventQueue (ingestAll batches initial)))"
    by (simp only: q distinct_first_by)
  have b: "\<And>i. find (\<lambda>x. event_id x = i) (eventQueue (ingestAll batches initial)) =
        find (\<lambda>x. event_id x = i) (concat (map sortEvents batches))"
    by (simp only: q find_first_by)
  have c: "\<And>i. \<forall>b \<in> set batches. distinct (map event_id b) \<Longrightarrow>
         find (\<lambda>x. event_id x = i) (eventQueue (ingestAll batches initial)) =
         find (\<lambda>x. event_id x = i) (concat batches)"
    using find_concat_sortEvents [of batches] by (simp only: b)
  from a b c show ?thesis by blast
qed

text \<open>
  Two batches delivering the same id, each without a duplicate of its own: the entry of
  the first batch is the one found in the queue.
\<close>

theorem C2_first_in_queue_order_wins_witness:
  "distinct (map event_id [\<lparr>event_id = ''1'', event_type = MESSAGE, timestamp = 0, payload = ''first''\<rparr>]) \<and>
   distinct (map event_id [\<lparr>event_id = ''1'', event_type = MESSAGE, timestamp = 5, payload = ''second''\<rparr>]) \<and>
   find (\<lambda>x. event_id x = ''1'')
     (eventQueue (ingestAll
        [[\<lparr>event_id = ''1'', event_type = MESSAGE, timestamp = 0, payload = ''first''\<rparr>],
         [\<lparr>event_id = ''1'', event_type = MESSAGE, timestamp = 5, payload = ''second''\<rparr>]] initial))
   = Some \<lparr>event_id = ''1'', event_type = MESSAGE, timestamp = 0, payload = ''first''\<rparr>"
  using C2_first_in_queue_order_wins
    [of "[[\<lparr>event_id = ''1'', event_type = MESSAGE, timestamp = 0, payload = ''first''\<rparr>],
          [\<lparr>event_id = ''1'', event_type = MESSAGE, timestamp = 5, payload = ''second''\<rparr>]]",
     THEN conjunct2, THEN conjunct2]
  by simp

text \<open>
  Claim C3, as stated: the length of the queue decreases by at most one per tick, expiry
  drops included. It fails on a queue of an expired message followed by a fresh one: the
  first is dropped by the expiry loop and the second is emitted in the same tick, so two
  entries leave the queue.
\<close>

theorem C3_two_removed_counterexample:
  "length (eventQueue
     \<lparr>eventQueue = [\<lparr>event_id = ''1'', event_type = MESSAGE, timestamp = 0, payload = ''old''\<rparr>,
                    \<lparr>event_id = ''2'', event_type = MESSAGE, timestamp = 24000, payload = ''new''\<rparr>],
      globalInterval = True, dom = []\<rparr>) = 2 \<and>
   checkEventQueueAndMakeNecessaryDomUpdate
     \<lparr>now = 25000, isAnimatingGiftUI = False, isPossiblyAnimatingGift = False\<rparr>
     \<lparr>eventQueue = [\<lparr>event_id = ''1'', event_type = MESSAGE, timestamp = 0, payload = ''old''\<rparr>,
                    \<lparr>event_id = ''2'', event_type = MESSAGE, timestamp = 24000, payload = ''new''\<rparr>],
      globalInterval = True, dom = []\<rparr>
   = (Inr True,
      \<lparr>eventQueue = [], globalInterval = True,
       dom = [AddMessage (Some \<lparr>event_id = ''2'', event_type = MESSAGE, timestamp = 24000, payload = ''new''\<rparr>)]\<rparr>)"
  by (simp add: checkEventQueueAndMakeNecessaryDomUpdate_def
      ignoreFirstEventWithTypeMessageOlderThan20Seconds_def
      calculateTimeDifferenceInSecondsAccordingToNow_def
      isFirstEventInQueueAnAnimatedGift_def processNormalEvent_def shift_def)

text \<open>
  Claim C3, amended: a tick first drops the expired messages at the front, however many
  there are, and then removes 0 or 1 further entry: the queue it leaves is the pruned
  queue with at most one entry taken out, the others in their order.
\<close>

theorem C3_one_removed_after_pruning:
  "subseq (eventQueue (snd (checkEventQueueAndMakeNecessaryDomUpdate e s)))
     (dropWhile (\<lambda>m. event_type m = MESSAGE \<and> now e - timestamp m > 20000) (eventQueue s)) \<and>
   length (dropWhile (\<lambda>m. event_type m = MESSAGE \<and> now e - timestamp m > 20000) (eventQueue s))
     \<le> length (eventQueue (snd (checkEventQueueAndMakeNecessaryDomUpdate e s))) + 1"
proof (cases e s rule: tick_cases)
  case idle
  then show ?thesis by simp
next
  case threw
  then show ?thesis by (simp del: dropWhile_eq_Nil_conv)
next
  case (animated x r)
  have "subseq r (x # r)"
    by (rule list_emb_Cons) simp
  with animated show ?thesis by simp
next
  case (ordinary xs x ys)
  have "subseq ys (x # ys)"
    by (rule list_emb_Cons) simp
  then have "subseq (xs @ ys) (xs @ x # ys)"
    by (simp only: subseq_append')
  with ordinary show ?thesis by simp
next
  case blocked
  then show ?thesis by simp
qed

text \<open>
  Claim C4: a tick on a queue whose front entry after pruning is an animated gift \<open>g\<close>.
  When neither animation predicate holds, \<open>g\<close> is removed and emitted as animated. When
  one of them holds, the first entry \<open>y\<close> that is not an animated gift is removed from
  its place and emitted as ordinary, \<open>g\<close> and the gifts before \<open>y\<close> staying where they
  are; and when every entry is an animated gift, nothing is removed and nothing emitted.
\<close>

theorem C4_animation_gating:
  assumes "dropWhile (\<lambda>m. event_type m = MESSAGE \<and> now e - timestamp m > 20000) (eventQueue s) = g # rest"
    and "event_type g = ANIMATED_GIFT"
  shows
    "(\<not> isAnimatingGiftUI e \<and> \<not> isPossiblyAnimatingGift e \<longrightarrow>
        checkEventQueueAndMakeNecessaryDomUpdate e s =
          (Inr True, s\<lparr>eventQueue := rest,
                        dom := dom s @ [AddMessage (Some g), AnimateGift (Some g)]\<rparr>)) \<and>
     (isAnimatingGiftUI e \<or> isPossiblyAnimatingGift e \<longrightarrow>
        rest = gs @ y # rest' \<and> list_all (\<lambda>x. event_type x = ANIMATED_GIFT) gs \<and>
        event_type y \<noteq> ANIMATED_GIFT \<longrightarrow>
        checkEventQueueAndMakeNecessaryDomUpdate e s =
          (Inr True, s\<lparr>eventQueue := g # gs @ rest', dom := dom s @ [AddMessage (Some y)]\<rparr>)) \<and>
     (isAnimatingGiftUI e \<or> isPossiblyAnimatingGift e \<longrightarrow>
        list_all (\<lambda>x. event_type x = ANIMATED_GIFT) rest \<longrightarrow>
        checkEventQueueAndMakeNecessaryDomUpdate e s = (Inr True, s\<lparr>eventQueue := g # rest\<rparr>))"
proof (intro conjI impI)
  assume "\<not> isAnimatingGiftUI e \<and> \<not> isPossiblyAnimatingGift e"
  then have "\<not> isAnimatingGiftUI e" "\<not> isPossiblyAnimatingGift e" by simp_all
  then show "checkEventQueueAndMakeNecessaryDomUpdate e s =
          (Inr True, s\<lparr>eventQueue := rest,
                        dom := dom s @ [AddMessage (Some g), AnimateGift (Some g)]\<rparr>)"
    by (rule tick_animated [OF assms])
next
  assume busy: "isAnimatingGiftUI e \<or> isPossiblyAnimatingGift e"
    and h: "rest = gs @ y # rest' \<and> list_all (\<lambda>x. event_type x = ANIMATED_GIFT) gs \<and>
           event_type y \<noteq> ANIMATED_GIFT"
  from h have t: "takeWhile animated rest = gs"
    by (simp add: list_all_iff)
  from h have d: "dropWhile animated rest = y # rest'"
    by (simp add: list_all_iff)
  show "checkEventQueueAndMakeNecessaryDomUpdate e s =
          (Inr True, s\<lparr>eventQueue := g # gs @ rest', dom := dom s @ [AddMessage (Some y)]\<rparr>)"
    using tick_skip [OF assms busy d] by (simp only: t)
next
  assume busy: "isAnimatingGiftUI e \<or> isPossiblyAnimatingGift e"
    and "list_all (\<lambda>x. event_type x = ANIMATED_GIFT) rest"
  then have "dropWhile animated rest = []"
    by (simp add: list_all_iff)
  then show "checkEventQueueAndMakeNecessaryDomUpdate e s = (Inr True, s\<lparr>eventQueue := g # rest\<rparr>)"
    by (rule tick_blocked [OF assms busy])
qed

text \<open>
  The three cases on the queues gift, gift, message and gift, gift.
\<close>

theorem C4_animation_gating_witness:
  "dropWhile (\<lambda>m. event_type m = MESSAGE \<and> 25000 - timestamp m > 20000)
     [\<lparr>event_id = ''1'', event_type = ANIMATED_GIFT, timestamp = 0, payload = ''g1''\<rparr>,
      \<lparr>event_id = ''2'', event_type = ANIMATED_GIFT, timestamp = 0, payload = ''g2''\<rparr>,
      \<lparr>event_id = ''3'', event_type = MESSAGE, timestamp = 24000, payload = ''m3''\<rparr>]
   = \<lparr>event_id = ''1'', event_type = ANIMATED_GIFT, timestamp = 0, payload = ''g1''\<rparr> #
     [\<lparr>event_id = ''2'', event_type = ANIMATED_GIFT, timestamp = 0, payload = ''g2''\<rparr>,
      \<lparr>event_id = ''3'', event_type = MESSAGE, timestamp = 24000, payload = ''m3''\<rparr>] \<and>
   checkEventQueueAndMakeNecessaryDomUpdate
     \<lparr>now = 25000, isAnimatingGiftUI = False, isPossiblyAnimatingGift = False\<rparr>
     \<lparr>eventQueue = [\<lparr>event_id = ''1'', event_type = ANIMATED_GIFT, timestamp = 0, payload = ''g1''\<rparr>, \<lparr>event_id = ''2'', event_type = ANIMATED_GIFT, timestamp = 0, payload = ''g2''\<rparr>, \<lparr>event_id = ''3'', event_type = MESSAGE, timestamp = 24000, payload = ''m3''\<rparr>], globalInterval = True, dom = []\<rparr>
   = (Inr True,
      \<lparr>eventQueue = [\<lparr>event_id = ''2'', event_type = ANIMATED_GIFT, timestamp = 0, payload = ''g2''\<rparr>, \<lparr>event_id = ''3'', event_type = MESSAGE, timestamp = 24000, payload = ''m3''\<rparr>], globalInterval = True, dom = [AddMessage (Some \<lparr>event_id = ''1'', event_type = ANIMATED_GIFT, timestamp = 0, payload = ''g1''\<rparr>), AnimateGift (Some \<lparr>event_id = ''1'', event_type = ANIMATED_GIFT, timestamp = 0, payload = ''g1''\<rparr>)]\<rparr>) \<and>
   checkEventQueueAndMakeNecessaryDomUpdate
     \<lparr>now = 25000, isAnimatingGiftUI = True, isPossiblyAnimatingGift = False\<rparr>
     \<lparr>eventQueue = [\<lparr>event_id = ''1'', event_type = ANIMATED_GIFT, timestamp = 0, payload = ''g1''\<rparr>, \<lparr>event_id = ''2'', event_type = ANIMATED_GIFT, timestamp = 0, payload = ''g2''\<rparr>, \<lparr>event_id = ''3'', event_type = MESSAGE, timestamp = 24000, payload = ''m3''\<rparr>], globalInterval = True, dom = []\<rparr>
   = (Inr True,
      \<lparr>eventQueue = [\<lparr>event_id = ''1'', event_type = ANIMATED_GIFT, timestamp = 0, payload = ''g1''\<rparr>, \<lparr>event_id = ''2'', event_type = ANIMATED_GIFT, timestamp = 0, payload = ''g2''\<rparr>], globalInterval = True, dom = [AddMessage (Some \<lparr>event_id = ''3'', event_type = MESSAGE, timestamp = 24000, payload = ''m3''\<rparr>)]\<rparr>) \<and>
   checkEventQueueAndMakeNecessaryDomUpdate
     \<lparr>now = 25000, isAnimatingGiftUI = True, isPossiblyAnimatingGift = False\<rparr>
     \<lparr>eventQueue = [\<lparr>event_id = ''1'', event_type = ANIMATED_GIFT, timestamp = 0, payload = ''g1''\<rparr>, \<lparr>event_id = ''2'', event_type = ANIMATED_GIFT, timestamp = 0, payload = ''g2''\<rparr>], globalInterval = True, dom = []\<rparr>
   = (Inr True,
      \<lparr>eventQueue = [\<lparr>event_id = ''1'', event_type = ANIMATED_GIFT, timestamp = 0, payload = ''g1''\<rparr>, \<lparr>event_id = ''2'', event_type = ANIMATED_GIFT, timestamp = 0, payload = ''g2''\<rparr>], globalInterval = True, dom = []\<rparr>)"
  using
    C4_animation_gating
      [where e = "\<lparr>now = 25000, isAnimatingGiftUI = False, isPossiblyAnimatingGift = False\<rparr>"
         and s = "\<lparr>eventQueue = [\<lparr>event_id = ''1'', event_type = ANIMATED_GIFT, timestamp = 0, payload = ''g1''\<rparr>, \<lparr>event_id = ''2'', event_type = ANIMATED_GIFT, timestamp = 0, payload = ''g2''\<rparr>, \<lparr>event_id = ''3'', event_type = MESSAGE, timestamp = 24000, payload = ''m3''\<rparr>], globalInterval = True, dom = []\<rparr>"
         and g = "\<lparr>event_id = ''1'', event_type = ANIMATED_GIFT, timestamp = 0, payload = ''g1''\<rparr>"
         and rest = "[\<lparr>event_id = ''2'', event_type = ANIMATED_GIFT, timestamp = 0, payload = ''g2''\<rparr>, \<lparr>event_id = ''3'', event_type = MESSAGE, timestamp = 24000, payload = ''m3''\<rparr>]",
       THEN conjunct1]
    C4_animation_gating
      [where e = "\<lparr>now = 25000, isAnimatingGiftUI = True, isPossiblyAnimatingGift = False\<rparr>"
         and s = "\<lparr>eventQueue = [\<lparr>event_id = ''1'', event_type = ANIMATED_GIFT, timestamp = 0, payload = ''g1''\<rparr>, \<lparr>event_id = ''2'', event_type = ANIMATED_GIFT, timestamp = 0, payload = ''g2''\<rparr>, \<lparr>event_id = ''3'', event_type = MESSAGE, timestamp = 24000, payload = ''m3''\<rparr>], globalInterval = True, dom = []\<rparr>"
         and g = "\<lparr>event_id = ''1'', event_type = ANIMATED_GIFT, timestamp = 0, payload = ''g1''\<rparr>"
         and rest = "[\<lparr>event_id = ''2'', event_type = ANIMATED_GIFT, timestamp = 0, payload = ''g2''\<rparr>, \<lparr>event_id = ''3'', event_type = MESSAGE, timestamp = 24000, payload = ''m3''\<rparr>]"
         and gs = "[\<lparr>event_id = ''2'', event_type = ANIMATED_GIFT, timestamp = 0, payload = ''g2''\<rparr>]"
         and y = "\<lparr>event_id = ''3'', event_type = MESSAGE, timestamp = 24000, payload = ''m3''\<rparr>"
         and rest' = "[]",
       THEN conjunct2, THEN conjunct1]
    C4_animation_gating
      [where e = "\<lparr>now = 25000, isAnimatingGiftUI = True, isPossiblyAnimatingGift = False\<rparr>"
         and s = "\<lparr>eventQueue = [\<lparr>event_id = ''1'', event_type = ANIMATED_GIFT, timestamp = 0, payload = ''g1''\<rparr>, \<lparr>event_id = ''2'', event_type = ANIMATED_GIFT, timestamp = 0, payload = ''g2''\<rparr>], globalInterval = True, dom = []\<rparr>"
         and g = "\<lparr>event_id = ''1'', event_type = ANIMATED_GIFT, timestamp = 0, payload = ''g1''\<rparr>"
         and rest = "[\<lparr>event_id = ''2'', event_type = ANIMATED_GIFT, timestamp = 0, payload = ''g2''\<rparr>]",
       THEN conjunct2, THEN conjunct2]
  by simp

text \<open>
  Claim C5: what an ingestion appends. The handler appends the animated gifts of the batch,
  in their order, and then its other events, in their order, and removes duplicates from
  the result. On a queue without duplicate ids (every reachable queue, lemma
  \<open>reachable_invariant\<close>) the old entries are left in front, in place, followed by those
  entries of the reordered batch whose id is new, the first of each id. When the batch
  brings no id twice and none the queue has, the new queue is the old one followed by the
  gifts and then the other events of the batch.
\<close>

theorem C5_priority_on_ingest:
  "(events \<noteq> [] \<longrightarrow>
      eventQueue (eventHandler events s) =
        eventQueue (removeDuplicateEvents
          (s\<lparr>eventQueue := eventQueue s @
                filter (\<lambda>x. event_type x = ANIMATED_GIFT) events @
                filter (\<lambda>x. event_type x \<noteq> ANIMATED_GIFT) events\<rparr>))) \<and>
   (distinct (map event_id (eventQueue s)) \<longrightarrow>
      eventQueue (eventHandler events s) =
        eventQueue s @
        first_by event_id
          (filter (\<lambda>x. event_id x \<notin> event_id ` set (eventQueue s))
             (filter (\<lambda>x. event_type x = ANIMATED_GIFT) events @
              filter (\<lambda>x. event_type x \<noteq> ANIMATED_GIFT) events))) \<and>
   (distinct (map event_id (eventQueue s @ events)) \<longrightarrow>
      eventQueue (eventHandler events s) =
        eventQueue s @
        filter (\<lambda>x. event_type x = ANIMATED_GIFT) events @
        filter (\<lambda>x. event_type x \<noteq> ANIMATED_GIFT) events)"
proof (intro conjI impI)
  assume "events \<noteq> []"
  then show "eventQueue (eventHandler events s) =
        eventQueue (removeDuplicateEvents
          (s\<lparr>eventQueue := eventQueue s @
                filter (\<lambda>x. event_type x = ANIMATED_GIFT) events @
                filter (\<lambda>x. event_type x \<noteq> ANIMATED_GIFT) events\<rparr>))"
    by (simp add: eventHandler_def sortEvents_def Let_def)
next
  assume d: "distinct (map event_id (eventQueue s))"
  then have "eventQueue (eventHandler events s) =
               first_by event_id (eventQueue s @ sortEvents events)"
    by (rule eventHandler_queue_distinct)
  also have "\<dots> = first_by event_id (eventQueue s) @
                   first_by event_id
                     (filter (\<lambda>x. event_id x \<notin> event_id ` set (eventQueue s)) (sortEvents events))"
    by (rule first_by_append)
  also have "first_by event_id (eventQueue s) = eventQueue s"
    using d by (rule first_by_distinct)
  finally show "eventQueue (eventHandler events s) =
        eventQueue s @
        first_by event_id
          (filter (\<lambda>x. event_id x \<notin> event_id ` set (eventQueue s))
             (filter (\<lambda>x. event_type x = ANIMATED_GIFT) events @
              filter (\<lambda>x. event_type x \<noteq> ANIMATED_GIFT) events))"
    by (simp add: sortEvents_def)
next
  assume d: "distinct (map event_id (eventQueue s @ events))"
  then have dq: "distinct (map event_id (eventQueue s))"
    and de: "distinct (map event_id events)"
    and dj: "event_id ` set (eventQueue s) \<inter> event_id ` set events = {}"
    by simp_all
  have ds: "distinct (map event_id (sortEvents events))"
    using de by (simp only: sortEvents_def Let_def distinct_map_partition)
  have "set (sortEvents events) = set events"
    by (auto simp add: sortEvents_def)
  with dj have dj': "event_id ` set (eventQueue s) \<inter> event_id ` set (sortEvents events) = {}"
    by simp
  have "distinct (map event_id (eventQueue s @ sortEvents events))"
    using dq ds dj' by simp
  then have "first_by event_id (eventQueue s @ sortEvents events) = eventQueue s @ sortEvents events"
    by (rule first_by_distinct)
  with eventHandler_queue_distinct [OF dq, of events]
  show "eventQueue (eventHandler events s) =
        eventQueue s @
        filter (\<lambda>x. event_type x = ANIMATED_GIFT) events @
        filter (\<lambda>x. event_type x \<noteq> ANIMATED_GIFT) events"
    by (simp add: sortEvents_def)
qed

text \<open>
  A queue of one message, a batch of a message, an animated gift and a duplicate of the
  queued id, and the same batch without the duplicate.
\<close>

theorem C5_priority_on_ingest_witness:
  "distinct (map event_id (eventQueue \<lparr>eventQueue = [\<lparr>event_id = ''1'', event_type = MESSAGE, timestamp = 0, payload = ''kept''\<rparr>], globalInterval = False, dom = []\<rparr>)) \<and>
   eventQueue (eventHandler
     [\<lparr>event_id = ''2'', event_type = MESSAGE, timestamp = 0, payload = ''m2''\<rparr>,
      \<lparr>event_id = ''3'', event_type = ANIMATED_GIFT, timestamp = 0, payload = ''g3''\<rparr>,
      \<lparr>event_id = ''1'', event_type = MESSAGE, timestamp = 7, payload = ''dropped''\<rparr>]
     \<lparr>eventQueue = [\<lparr>event_id = ''1'', event_type = MESSAGE, timestamp = 0, payload = ''kept''\<rparr>], globalInterval = False, dom = []\<rparr>)
   = [\<lparr>event_id = ''1'', event_type = MESSAGE, timestamp = 0, payload = ''kept''\<rparr>,
      \<lparr>event_id = ''3'', event_type = ANIMATED_GIFT, timestamp = 0, payload = ''g3''\<rparr>,
      \<lparr>event_id = ''2'', event_type = MESSAGE, timestamp = 0, payload = ''m2''\<rparr>] \<and>
   distinct (map event_id (eventQueue \<lparr>eventQueue = [\<lparr>event_id = ''1'', event_type = MESSAGE, timestamp = 0, payload = ''kept''\<rparr>], globalInterval = False, dom = []\<rparr> @
     [\<lparr>event_id = ''2'', event_type = MESSAGE, timestamp = 0, payload = ''m2''\<rparr>,
      \<lparr>event_id = ''3'', event_type = ANIMATED_GIFT, timestamp = 0, payload = ''g3''\<rparr>])) \<and>
   eventQueue (eventHandler
     [\<lparr>event_id = ''2'', event_type = MESSAGE, timestamp = 0, payload = ''m2''\<rparr>,
      \<lparr>event_id = ''3'', event_type = ANIMATED_GIFT, timestamp = 0, payload = ''g3''\<rparr>]
     \<lparr>eventQueue = [\<lparr>event_id = ''1'', event_type = MESSAGE, timestamp = 0, payload = ''kept''\<rparr>], globalInterval = False, dom = []\<rparr>)
   = [\<lparr>event_id = ''1'', event_type = MESSAGE, timestamp = 0, payload = ''kept''\<rparr>,
      \<lparr>event_id = ''3'', event_type = ANIMATED_GIFT, timestamp = 0, payload = ''g3''\<rparr>,
      \<lparr>event_id = ''2'', event_type = MESSAGE, timestamp = 0, payload = ''m2''\<rparr>]"
  using
    C5_priority_on_ingest
      [where events = "[\<lparr>event_id = ''2'', event_type = MESSAGE, timestamp = 0, payload = ''m2''\<rparr>, \<lparr>event_id = ''3'', event_type = ANIMATED_GIFT, timestamp = 0, payload = ''g3''\<rparr>, \<lparr>event_id = ''1'', event_type = MESSAGE, timestamp = 7, payload = ''dropped''\<rparr>]"
         and s = "\<lparr>eventQueue = [\<lparr>event_id = ''1'', event_type = MESSAGE, timestamp = 0, payload = ''kept''\<rparr>], globalInterval = False, dom = []\<rparr>",
       THEN conjunct1]
    C5_priority_on_ingest
      [where events = "[\<lparr>event_id = ''2'', event_type = MESSAGE, timestamp = 0, payload = ''m2''\<rparr>, \<lparr>event_id = ''3'', event_type = ANIMATED_GIFT, timestamp = 0, payload = ''g3''\<rparr>, \<lparr>event_id = ''1'', event_type = MESSAGE, timestamp = 7, payload = ''dropped''\<rparr>]"
         and s = "\<lparr>eventQueue = [\<lparr>event_id = ''1'', event_type = MESSAGE, timestamp = 0, payload = ''kept''\<rparr>], globalInterval = False, dom = []\<rparr>",
       THEN conjunct2, THEN conjunct1]
    C5_priority_on_ingest
      [where events = "[\<lparr>event_id = ''2'', event_type = MESSAGE, timestamp = 0, payload = ''m2''\<rparr>, \<lparr>event_id = ''3'', event_type = ANIMATED_GIFT, timestamp = 0, payload = ''g3''\<rparr>]"
         and s = "\<lparr>eventQueue = [\<lparr>event_id = ''1'', event_type = MESSAGE, timestamp = 0, payload = ''kept''\<rparr>], globalInterval = False, dom = []\<rparr>",
       THEN conjunct2, THEN conjunct2]
  by simp



text \<open>
  Claim C7: the renderer calls of an emission. \<open>processAnimatedGiftEvent\<close> removes the
  front entry and calls \<open>addMessage\<close> and then \<open>animateGift\<close> on it;
  \<open>processNormalEvent\<close> removes the front entry and calls \<open>addMessage\<close> on it alone.
  In a tick: an animated gift at the front of the pruned queue, with no animation playing
  or pending, is emitted with exactly these two calls, in this order; an entry that is not
  an animated gift, at the front or skipped to behind the gifts while an animation plays
  or is pending, is emitted with \<open>addMessage\<close> alone; and a tick that emits nothing,
  the pruned queue being empty or all animated gifts during an animation, makes no call.
\<close>

theorem C7_renderer_calls_of_a_tick:
  "(eventQueue s = x # r \<longrightarrow>
      processAnimatedGiftEvent s =
        s\<lparr>eventQueue := r, dom := dom s @ [AddMessage (Some x), AnimateGift (Some x)]\<rparr>) \<and>
   (eventQueue s = x # r \<longrightarrow>
      processNormalEvent s = s\<lparr>eventQueue := r, dom := dom s @ [AddMessage (Some x)]\<rparr>) \<and>
   (dropWhile (\<lambda>m. event_type m = MESSAGE \<and> now e - timestamp m > 20000) (eventQueue s) = x # r \<and>
    event_type x = ANIMATED_GIFT \<and> \<not> isAnimatingGiftUI e \<and> \<not> isPossiblyAnimatingGift e \<longrightarrow>
      checkEventQueueAndMakeNecessaryDomUpdate e s =
        (Inr True, s\<lparr>eventQueue := r,
                      dom := dom s @ [AddMessage (Some x), AnimateGift (Some x)]\<rparr>)) \<and>
   (dropWhile (\<lambda>m. event_type m = MESSAGE \<and> now e - timestamp m > 20000) (eventQueue s) = x # r \<and>
    event_type x \<noteq> ANIMATED_GIFT \<longrightarrow>
      checkEventQueueAndMakeNecessaryDomUpdate e s =
        (Inr True, s\<lparr>eventQueue := r, dom := dom s @ [AddMessage (Some x)]\<rparr>)) \<and>
   (dropWhile (\<lambda>m. event_type m = MESSAGE \<and> now e - timestamp m > 20000) (eventQueue s) = x # gs @ y # r' \<and>
    event_type x = ANIMATED_GIFT \<and> (isAnimatingGiftUI e \<or> isPossiblyAnimatingGift e) \<and>
    list_all (\<lambda>x. event_type x = ANIMATED_GIFT) gs \<and> event_type y \<noteq> ANIMATED_GIFT \<longrightarrow>
      checkEventQueueAndMakeNecessaryDomUpdate e s =
        (Inr True, s\<lparr>eventQueue := x # gs @ r', dom := dom s @ [AddMessage (Some y)]\<rparr>)) \<and>
   (dropWhile (\<lambda>m. event_type m = MESSAGE \<and> now e - timestamp m > 20000) (eventQueue s) = [] \<longrightarrow>
      dom (snd (checkEventQueueAndMakeNecessaryDomUpdate e s)) = dom s) \<and>
   (dropWhile (\<lambda>m. event_type m = MESSAGE \<and> now e - timestamp m > 20000) (eventQueue s) = x # r \<and>
    event_type x = ANIMATED_GIFT \<and> (isAnimatingGiftUI e \<or> isPossiblyAnimatingGift e) \<and>
    list_all (\<lambda>x. event_type x = ANIMATED_GIFT) r \<longrightarrow>
      dom (snd (checkEventQueueAndMakeNecessaryDomUpdate e s)) = dom s)"
proof (intro conjI impI)
  assume "eventQueue s = x # r"
  then show "processAnimatedGiftEvent s =
        s\<lparr>eventQueue := r, dom := dom s @ [AddMessage (Some x), AnimateGift (Some x)]\<rparr>"
    by (simp add: processAnimatedGiftEvent_def shift_def)
next
  assume "eventQueue s = x # r"
  then show "processNormalEvent s = s\<lparr>eventQueue := r, dom := dom s @ [AddMessage (Some x)]\<rparr>"
    by (simp add: processNormalEvent_def shift_def)
next
  assume h: "dropWhile (expired (now e)) (eventQueue s) = x # r \<and>
    event_type x = ANIMATED_GIFT \<and> \<not> isAnimatingGiftUI e \<and> \<not> isPossiblyAnimatingGift e"
  then have p: "dropWhile (expired (now e)) (eventQueue s) = x # r"
    and g: "event_type x = ANIMATED_GIFT"
    and a: "\<not> isAnimatingGiftUI e" and b: "\<not> isPossiblyAnimatingGift e"
    by simp_all
  show "checkEventQueueAndMakeNecessaryDomUpdate e s =
        (Inr True, s\<lparr>eventQueue := r,
                      dom := dom s @ [AddMessage (Some x), AnimateGift (Some x)]\<rparr>)"
    using p g a b by (rule tick_animated)
next
  assume h: "dropWhile (expired (now e)) (eventQueue s) = x # r \<and> event_type x \<noteq> ANIMATED_GIFT"
  then have p: "dropWhile (expired (now e)) (eventQueue s) = x # r"
    and n: "event_type x \<noteq> ANIMATED_GIFT"
    by simp_all
  show "checkEventQueueAndMakeNecessaryDomUpdate e s =
        (Inr True, s\<lparr>eventQueue := r, dom := dom s @ [AddMessage (Some x)]\<rparr>)"
    using p n by (rule tick_normal)
next
  assume h: "dropWhile (expired (now e)) (eventQueue s) = x # gs @ y # r' \<and>
    event_type x = ANIMATED_GIFT \<and> (isAnimatingGiftUI e \<or> isPossiblyAnimatingGift e) \<and>
    list_all (\<lambda>x. event_type x = ANIMATED_GIFT) gs \<and> event_type y \<noteq> ANIMATED_GIFT"
  then have p: "dropWhile (expired (now e)) (eventQueue s) = x # (gs @ y # r')"
    and g: "event_type x = ANIMATED_GIFT"
    and busy: "isAnimatingGiftUI e \<or> isPossiblyAnimatingGift e"
    by simp_all
  from h have t: "takeWhile animated (gs @ y # r') = gs"
    by (simp add: list_all_iff)
  from h have d: "dropWhile animated (gs @ y # r') = y # r'"
    by (simp add: list_all_iff)
  show "checkEventQueueAndMakeNecessaryDomUpdate e s =
        (Inr True, s\<lparr>eventQueue := x # gs @ r', dom := dom s @ [AddMessage (Some y)]\<rparr>)"
    using tick_skip [OF p g busy d] by (simp only: t)
next
  assume p: "dropWhile (expired (now e)) (eventQueue s) = []"
  show "dom (snd (checkEventQueueAndMakeNecessaryDomUpdate e s)) = dom s"
  proof (cases "eventQueue s = []")
    case True
    then show ?thesis by (simp add: tick_empty)
  next
    case False
    then show ?thesis using p by (simp add: tick_all_expired del: dropWhile_eq_Nil_conv)
  qed
next
  assume h: "dropWhile (expired (now e)) (eventQueue s) = x # r \<and>
    event_type x = ANIMATED_GIFT \<and> (isAnimatingGiftUI e \<or> isPossiblyAnimatingGift e) \<and>
    list_all (\<lambda>x. event_type x = ANIMATED_GIFT) r"
  then have p: "dropWhile (expired (now e)) (eventQueue s) = x # r"
    and g: "event_type x = ANIMATED_GIFT"
    and busy: "isAnimatingGiftUI e \<or> isPossiblyAnimatingGift e"
    by simp_all
  from h have d: "dropWhile animated r = []"
    by (simp add: list_all_iff)
  show "dom (snd (checkEventQueueAndMakeNecessaryDomUpdate e s)) = dom s"
    using tick_blocked [OF p g busy d] by simp
qed

text \<open>
  The two helpers on the queue gift, message; ticks on the queues gift, message (idle),
  message, gift, and gift, gift, message (animation pending); and the two ticks without a
  call, on one expired message and on gift, gift with an animation pending.
\<close>

theorem C7_renderer_calls_of_a_tick_witness:
  "processAnimatedGiftEvent
     \<lparr>eventQueue = [\<lparr>event_id = ''1'', event_type = ANIMATED_GIFT, timestamp = 0, payload = ''g1''\<rparr>, \<lparr>event_id = ''3'', event_type = MESSAGE, timestamp = 24000, payload = ''m3''\<rparr>], globalInterval = True, dom = []\<rparr>
   = \<lparr>eventQueue = [\<lparr>event_id = ''3'', event_type = MESSAGE, timestamp = 24000, payload = ''m3''\<rparr>], globalInterval = True, dom = [AddMessage (Some \<lparr>event_id = ''1'', event_type = ANIMATED_GIFT, timestamp = 0, payload = ''g1''\<rparr>), AnimateGift (Some \<lparr>event_id = ''1'', event_type = ANIMATED_GIFT, timestamp = 0, payload = ''g1''\<rparr>)]\<rparr> \<and>
   processNormalEvent
     \<lparr>eventQueue = [\<lparr>event_id = ''3'', event_type = MESSAGE, timestamp = 24000, payload = ''m3''\<rparr>, \<lparr>event_id = ''1'', event_type = ANIMATED_GIFT, timestamp = 0, payload = ''g1''\<rparr>], globalInterval = True, dom = []\<rparr>
   = \<lparr>eventQueue = [\<lparr>event_id = ''1'', event_type = ANIMATED_GIFT, timestamp = 0, payload = ''g1''\<rparr>], globalInterval = True, dom = [AddMessage (Some \<lparr>event_id = ''3'', event_type = MESSAGE, timestamp = 24000, payload = ''m3''\<rparr>)]\<rparr> \<and>
   checkEventQueueAndMakeNecessaryDomUpdate
     \<lparr>now = 25000, isAnimatingGiftUI = False, isPossiblyAnimatingGift = False\<rparr>
     \<lparr>eventQueue = [\<lparr>event_id = ''1'', event_type = ANIMATED_GIFT, timestamp = 0, payload = ''g1''\<rparr>, \<lparr>event_id = ''3'', event_type = MESSAGE, timestamp = 24000, payload = ''m3''\<rparr>], globalInterval = True, dom = []\<rparr>
   = (Inr True,
      \<lparr>eventQueue = [\<lparr>event_id = ''3'', event_type = MESSAGE, timestamp = 24000, payload = ''m3''\<rparr>], globalInterval = True, dom = [AddMessage (Some \<lparr>event_id = ''1'', event_type = ANIMATED_GIFT, timestamp = 0, payload = ''g1''\<rparr>), AnimateGift (Some \<lparr>event_id = ''1'', event_type = ANIMATED_GIFT, timestamp = 0, payload = ''g1''\<rparr>)]\<rparr>) \<and>
   checkEventQueueAndMakeNecessaryDomUpdate
     \<lparr>now = 25000, isAnimatingGiftUI = False, isPossiblyAnimatingGift = False\<rparr>
     \<lparr>eventQueue = [\<lparr>event_id = ''3'', event_type = MESSAGE, timestamp = 24000, payload = ''m3''\<rparr>, \<lparr>event_id = ''1'', event_type = ANIMATED_GIFT, timestamp = 0, payload = ''g1''\<rparr>], globalInterval = True, dom = []\<rparr>
   = (Inr True,
      \<lparr>eventQueue = [\<lparr>event_id = ''1'', event_type = ANIMATED_GIFT, timestamp = 0, payload = ''g1''\<rparr>], globalInterval = True, dom = [AddMessage (Some \<lparr>event_id = ''3'', event_type = MESSAGE, timestamp = 24000, payload = ''m3''\<rparr>)]\<rparr>) \<and>
   checkEventQueueAndMakeNecessaryDomUpdate
     \<lparr>now = 25000, isAnimatingGiftUI = False, isPossiblyAnimatingGift = True\<rparr>
     \<lparr>eventQueue = [\<lparr>event_id = ''1'', event_type = ANIMATED_GIFT, timestamp = 0, payload = ''g1''\<rparr>, \<lparr>event_id = ''2'', event_type = ANIMATED_GIFT, timestamp = 0, payload = ''g2''\<rparr>, \<lparr>event_id = ''3'', event_type = MESSAGE, timestamp = 24000, payload = ''m3''\<rparr>], globalInterval = True, dom = []\<rparr>
   = (Inr True,
      \<lparr>eventQueue = [\<lparr>event_id = ''1'', event_type = ANIMATED_GIFT, timestamp = 0, payload = ''g1''\<rparr>, \<lparr>event_id = ''2'', event_type = ANIMATED_GIFT, timestamp = 0, payload = ''g2''\<rparr>], globalInterval = True, dom = [AddMessage (Some \<lparr>event_id = ''3'', event_type = MESSAGE, timestamp = 24000, payload = ''m3''\<rparr>)]\<rparr>) \<and>
   dom (snd (checkEventQueueAndMakeNecessaryDomUpdate
     \<lparr>now = 25000, isAnimatingGiftUI = False, isPossiblyAnimatingGift = False\<rparr>
     \<lparr>eventQueue = [\<lparr>event_id = ''4'', event_type = MESSAGE, timestamp = 0, payload = ''old''\<rparr>], globalInterval = True, dom = []\<rparr>)) = [] \<and>
   dom (snd (checkEventQueueAndMakeNecessaryDomUpdate
     \<lparr>now = 25000, isAnimatingGiftUI = False, isPossiblyAnimatingGift = True\<rparr>
     \<lparr>eventQueue = [\<lparr>event_id = ''1'', event_type = ANIMATED_GIFT, timestamp = 0, payload = ''g1''\<rparr>, \<lparr>event_id = ''2'', event_type = ANIMATED_GIFT, timestamp = 0, payload = ''g2''\<rparr>], globalInterval = True, dom = []\<rparr>)) = []"
  using
    C7_renderer_calls_of_a_tick
      [where s = "\<lparr>eventQueue = [\<lparr>event_id = ''1'', event_type = ANIMATED_GIFT, timestamp = 0, payload = ''g1''\<rparr>, \<lparr>event_id = ''3'', event_type = MESSAGE, timestamp = 24000, payload = ''m3''\<rparr>], globalInterval = True, dom = []\<rparr>"
         and x = "\<lparr>event_id = ''1'', event_type = ANIMATED_GIFT, timestamp = 0, payload = ''g1''\<rparr>"
         and r = "[\<lparr>event_id = ''3'', event_type = MESSAGE, timestamp = 24000, payload = ''m3''\<rparr>]",
       THEN conjunct1]
    C7_renderer_calls_of_a_tick
      [where s = "\<lparr>eventQueue = [\<lparr>event_id = ''3'', event_type = MESSAGE, timestamp = 24000, payload = ''m3''\<rparr>, \<lparr>event_id = ''1'', event_type = ANIMATED_GIFT, timestamp = 0, payload = ''g1''\<rparr>], globalInterval = True, dom = []\<rparr>"
         and x = "\<lparr>event_id = ''3'', event_type = MESSAGE, timestamp = 24000, payload = ''m3''\<rparr>"
         and r = "[\<lparr>event_id = ''1'', event_type = ANIMATED_GIFT, timestamp = 0, payload = ''g1''\<rparr>]",
       THEN conjunct2, THEN conjunct1]
    C7_renderer_calls_of_a_tick
      [where e = "\<lparr>now = 25000, isAnimatingGiftUI = False, isPossiblyAnimatingGift = False\<rparr>"
         and s = "\<lparr>eventQueue = [\<lparr>event_id = ''1'', event_type = ANIMATED_GIFT, timestamp = 0, payload = ''g1''\<rparr>, \<lparr>event_id = ''3'', event_type = MESSAGE, timestamp = 24000, payload = ''m3''\<rparr>], globalInterval = True, dom = []\<rparr>"
         and x = "\<lparr>event_id = ''1'', event_type = ANIMATED_GIFT, timestamp = 0, payload = ''g1''\<rparr>"
         and r = "[\<lparr>event_id = ''3'', event_type = MESSAGE, timestamp = 24000, payload = ''m3''\<rparr>]",
       THEN conjunct2, THEN conjunct2, THEN conjunct1]
    C7_renderer_calls_of_a_tick
      [where e = "\<lparr>now = 25000, isAnimatingGiftUI = False, isPossiblyAnimatingGift = False\<rparr>"
         and s = "\<lparr>eventQueue = [\<lparr>event_id = ''3'', event_type = MESSAGE, timestamp = 24000, payload = ''m3''\<rparr>, \<lparr>event_id = ''1'', event_type = ANIMATED_GIFT, timestamp = 0, payload = ''g1''\<rparr>], globalInterval = True, dom = []\<rparr>"
         and x = "\<lparr>event_id = ''3'', event_type = MESSAGE, timestamp = 24000, payload = ''m3''\<rparr>"
         and r = "[\<lparr>event_id = ''1'', event_type = ANIMATED_GIFT, timestamp = 0, payload = ''g1''\<rparr>]",
       THEN conjunct2, THEN conjunct2, THEN conjunct2, THEN conjunct1]
    C7_renderer_calls_of_a_tick
      [where e = "\<lparr>now = 25000, isAnimatingGiftUI = False, isPossiblyAnimatingGift = True\<rparr>"
         and s = "\<lparr>eventQueue = [\<lparr>event_id = ''1'', event_type = ANIMATED_GIFT, timestamp = 0, payload = ''g1''\<rparr>, \<lparr>event_id = ''2'', event_type = ANIMATED_GIFT, timestamp = 0, payload = ''g2''\<rparr>, \<lparr>event_id = ''3'', event_type = MESSAGE, timestamp = 24000, payload = ''m3''\<rparr>], globalInterval = True, dom = []\<rparr>"
         and x = "\<lparr>event_id = ''1'', event_type = ANIMATED_GIFT, timestamp = 0, payload = ''g1''\<rparr>"
         and gs = "[\<lparr>event_id = ''2'', event_type = ANIMATED_GIFT, timestamp = 0, payload = ''g2''\<rparr>]"
         and y = "\<lparr>event_id = ''3'', event_type = MESSAGE, timestamp = 24000, payload = ''m3''\<rparr>"
         and r' = "[]",
       THEN conjunct2, THEN conjunct2, THEN conjunct2, THEN conjunct2, THEN conjunct1]
    C7_renderer_calls_of_a_tick
      [where e = "\<lparr>now = 25000, isAnimatingGiftUI = False, isPossiblyAnimatingGift = False\<rparr>"
         and s = "\<lparr>eventQueue = [\<lparr>event_id = ''4'', event_type = MESSAGE, timestamp = 0, payload = ''old''\<rparr>], globalInterval = True, dom = []\<rparr>",
       THEN conjunct2, THEN conjunct2, THEN conjunct2, THEN conjunct2, THEN conjunct2, THEN conjunct1]
    C7_renderer_calls_of_a_tick
      [where e = "\<lparr>now = 25000, isAnimatingGiftUI = False, isPossiblyAnimatingGift = True\<rparr>"
         and s = "\<lparr>eventQueue = [\<lparr>event_id = ''1'', event_type = ANIMATED_GIFT, timestamp = 0, payload = ''g1''\<rparr>, \<lparr>event_id = ''2'', event_type = ANIMATED_GIFT, timestamp = 0, payload = ''g2''\<rparr>], globalInterval = True, dom = []\<rparr>"
         and x = "\<lparr>event_id = ''1'', event_type = ANIMATED_GIFT, timestamp = 0, payload = ''g1''\<rparr>"
         and r = "[\<lparr>event_id = ''2'', event_type = ANIMATED_GIFT, timestamp = 0, payload = ''g2''\<rparr>]",
       THEN conjunct2, THEN conjunct2, THEN conjunct2, THEN conjunct2, THEN conjunct2, THEN conjunct2]
  by simp

text \<open>
  Claim C8: the interval. An ingestion of a non-empty batch leaves the interval running
  and makes no renderer call; a tick that finds the queue empty returns \<open>false\<close>, clears
  the interval and changes nothing else; and a non-empty ingestion after such a tick has
  the interval running again.
\<close>

theorem C8_timer_lifecycle:
  "(events \<noteq> [] \<longrightarrow>
      globalInterval (eventHandler events s) \<and> dom (eventHandler events s) = dom s) \<and>
   (eventQueue s = [] \<longrightarrow>
      checkEventQueueAndMakeNecessaryDomUpdate e s = (Inr False, s\<lparr>globalInterval := False\<rparr>)) \<and>
   (eventQueue s = [] \<and> events \<noteq> [] \<longrightarrow>
      globalInterval (eventHandler events (snd (checkEventQueueAndMakeNecessaryDomUpdate e s))))"
  by (simp add: eventHandler_state tick_empty)

text \<open>
  One message ingested into the empty queue, before and after a tick on the empty queue.
\<close>

theorem C8_timer_lifecycle_witness:
  "globalInterval (eventHandler [\<lparr>event_id = ''2'', event_type = MESSAGE, timestamp = 24000, payload = ''fresh''\<rparr>] \<lparr>eventQueue = [], globalInterval = False, dom = []\<rparr>) \<and>
   dom (eventHandler [\<lparr>event_id = ''2'', event_type = MESSAGE, timestamp = 24000, payload = ''fresh''\<rparr>] \<lparr>eventQueue = [], globalInterval = False, dom = []\<rparr>) = [] \<and>
   checkEventQueueAndMakeNecessaryDomUpdate
     \<lparr>now = 25000, isAnimatingGiftUI = False, isPossiblyAnimatingGift = False\<rparr>
     \<lparr>eventQueue = [], globalInterval = True, dom = []\<rparr>
   = (Inr False, \<lparr>eventQueue = [], globalInterval = False, dom = []\<rparr>) \<and>
   globalInterval (eventHandler [\<lparr>event_id = ''2'', event_type = MESSAGE, timestamp = 24000, payload = ''fresh''\<rparr>]
     (snd (checkEventQueueAndMakeNecessaryDomUpdate
        \<lparr>now = 25000, isAnimatingGiftUI = False, isPossiblyAnimatingGift = False\<rparr>
        \<lparr>eventQueue = [], globalInterval = True, dom = []\<rparr>)))"
  using
    C8_timer_lifecycle
      [where events = "[\<lparr>event_id = ''2'', event_type = MESSAGE, timestamp = 24000, payload = ''fresh''\<rparr>]"
         and s = "\<lparr>eventQueue = [], globalInterval = False, dom = []\<rparr>",
       THEN conjunct1]
    C8_timer_lifecycle
      [where e = "\<lparr>now = 25000, isAnimatingGiftUI = False, isPossiblyAnimatingGift = False\<rparr>"
         and s = "\<lparr>eventQueue = [], globalInterval = True, dom = []\<rparr>",
       THEN conjunct2, THEN conjunct1]
    C8_timer_lifecycle
      [where events = "[\<lparr>event_id = ''2'', event_type = MESSAGE, timestamp = 24000, payload = ''fresh''\<rparr>]"
         and e = "\<lparr>now = 25000, isAnimatingGiftUI = False, isPossiblyAnimatingGift = False\<rparr>"
         and s = "\<lparr>eventQueue = [], globalInterval = True, dom = []\<rparr>",
       THEN conjunct2, THEN conjunct2]
  by simp

text \<open>
  Claim C9: the handler called with an empty batch changes nothing: the queue, the
  interval and the renderer log are those of the state it was called in.
\<close>

theorem C9_empty_batch_is_noop: "eventHandler [] s = s"
  by (simp add: eventHandler_def)

text \<open>
  Claim C10: the tick of the first draft and the tick of the third draft leave the same
  state (queue, interval, renderer calls) and throw in the same cases; they differ only in
  the value returned, a boolean in the first draft and nothing in the third.
\<close>

theorem C10_draft1_draft3_same:
  "checkEventQueueAndMakeNecessaryDomUpdate_draft3 e s =
     (case checkEventQueueAndMakeNecessaryDomUpdate e s of
        (r, s') \<Rightarrow> (map_sum (\<lambda>err. err) (\<lambda>returned. ()) r, s'))"
proof (cases "eventQueue s = []")
  case True
  then show ?thesis
    by (simp add: checkEventQueueAndMakeNecessaryDomUpdate_draft3_def
        checkEventQueueAndMakeNecessaryDomUpdate_def stopGlobalInterval_def)
next
  case ne: False
  show ?thesis
  proof (cases "dropWhile (expired (now e)) (eventQueue s)")
    case Nil
    with ne show ?thesis
      by (simp add: checkEventQueueAndMakeNecessaryDomUpdate_draft3_def
          checkEventQueueAndMakeNecessaryDomUpdate_def ignoreFirst_state)
  next
    case (Cons x r)
    with ne show ?thesis
      by (simp add: checkEventQueueAndMakeNecessaryDomUpdate_draft3_def
          checkEventQueueAndMakeNecessaryDomUpdate_def ignoreFirst_state
          isFirstEventInQueueAnAnimatedGift_def isAnyAnimatingGiftNotPlaying_def
          processAnimatedGiftEvent_def processNormalEvent_def
          processFirstNotAnimatedGiftEvent_def shift_def Let_def
          split: prod.split)
  qed
qed

end
